theory Spec2Isabelle
  imports Main
begin

section \<open>Data model of \<^verbatim>\<open>client.go\<close>\<close>

text \<open>
  A Go \<^verbatim>\<open>error\<close> is represented by the text its \<^verbatim>\<open>Error()\<close> method returns
  (\<^verbatim>\<open>isRetryableError\<close> inspects nothing else); \<^verbatim>\<open>nil\<close> is \<open>None\<close>.
  \<^verbatim>\<open>[]byte\<close> is a \<open>string\<close> (a list of 8-bit characters).
  \<^verbatim>\<open>http.Header\<close> is \<^verbatim>\<open>map[string][]string\<close>; the pipeline only passes the
  response header through, so an association list is enough.
\<close>

type_synonym bytes = string
type_synonym http_Header = "(string \<times> string list) list"

record Response =
  StatusCode :: int
  Headers :: http_Header
  Body :: bytes

record Client =
  baseURL :: string
  serviceName :: string

text \<open>
  The request that \<^verbatim>\<open>http.NewRequestWithContext\<close> returns. Its body is a
  \<^verbatim>\<open>bytes.Reader\<close>, a stateful object: \<open>req_body\<close> holds the bytes that have not
  been read from it yet (\<open>None\<close> when the request has no body).
\<close>

record http_Request =
  req_method :: string
  req_url :: string
  req_body :: "bytes option"

subsection \<open>Effects\<close>

text \<open>
  Everything \<^verbatim>\<open>doRequest\<close> does to its collaborators (the span, the HTTP client,
  the circuit breaker, the retry timer) is recorded, in program order, as a list of events.
  Logger calls influence nothing and are left out, as are the request headers.
\<close>

datatype codes = CodeUnset | CodeError | CodeOk

datatype event =
    SpanStart string "(string \<times> string) list"
  | SpanRecordError string
  | SpanSetStatus codes string
  | SpanSetAttributes string int
  | SpanEnd
  | NewRequest string string "bytes option"
  | BreakerExecute
  | HttpDo string string "bytes option"
  | TimerStart nat

record call_result =
  ret_resp :: "Response option"
  ret_err :: "string option"
  trace :: "event list"

subsection \<open>The environment of one retry-loop iteration\<close>

text \<open>
  The collaborators are outside the repository (net/http, sony/gobreaker,
  cenkalti/backoff, the clock, the call context). What they answer in one iteration of
  the retry loop is an input:
  \<^item> \<open>gate\<close>: whether \<^verbatim>\<open>CircuitBreaker.Execute\<close> runs the function it is given, or
    returns \<^verbatim>\<open>ErrOpenState\<close> / \<^verbatim>\<open>ErrTooManyRequests\<close> without calling it;
  \<^item> \<open>body_read\<close>: how many bytes \<^verbatim>\<open>httpClient.Do\<close> reads from the request body;
  \<^item> \<open>outcome\<close>: what \<^verbatim>\<open>httpClient.Do\<close> and \<^verbatim>\<open>io.ReadAll\<close> return;
  \<^item> \<open>ctx_at_backoff\<close>: the call context when \<^verbatim>\<open>NextBackOff\<close> is asked;
  \<^item> \<open>next_interval\<close>: what \<^verbatim>\<open>ExponentialBackOff.NextBackOff\<close> returns
    (\<open>Stop\<close> once the elapsed-time budget is spent);
  \<^item> \<open>ctx_in_sleep\<close>: the call context while the retry timer runs.
\<close>

datatype ctx_state = Live | Canceled | DeadlineExceeded

datatype breaker_gate = Admit | OpenState | TooManyRequests

datatype http_outcome =
    DoErr string
  | ReadErr string
  | Received int http_Header bytes

datatype backoff_next = Stop | Delay nat

record attempt_env =
  gate :: breaker_gate
  body_read :: nat
  outcome :: http_outcome
  ctx_at_backoff :: ctx_state
  next_interval :: backoff_next
  ctx_in_sleep :: ctx_state

fun ctx_Err :: "ctx_state \<Rightarrow> string option" where
  "ctx_Err Live = None"
| "ctx_Err Canceled = Some ''context canceled''"
| "ctx_Err DeadlineExceeded = Some ''context deadline exceeded''"

section \<open>Formatting\<close>

text \<open>\<^verbatim>\<open>%d\<close> of \<^verbatim>\<open>fmt\<close> for an \<^verbatim>\<open>int\<close>: decimal digits, a minus sign when negative.\<close>

definition digit :: "nat \<Rightarrow> char" where
  "digit d = ''0123456789'' ! d"

function decimal :: "nat \<Rightarrow> string" where
  "decimal n = (if n < 10 then [digit n] else decimal (n div 10) @ [digit (n mod 10)])"
  by pat_completeness auto
termination
  by (relation "measure id") auto

declare decimal.simps [simp del]

definition itoa :: "int \<Rightarrow> string" where
  "itoa i = (if i < 0 then CHR ''-'' # decimal (nat (- i)) else decimal (nat i))"

section \<open>Response helpers\<close>

definition IsSuccess :: "Response \<Rightarrow> bool" where
  "IsSuccess r = (StatusCode r \<ge> 200 \<and> StatusCode r < 300)"

section \<open>Error classification\<close>

definition isRetryableError :: "string option \<Rightarrow> bool" where
  "isRetryableError err =
     (case err of
        None \<Rightarrow> False
      | Some msg \<Rightarrow>
          if msg = ''context deadline exceeded'' \<or>
             msg = ''context canceled'' \<or>
             msg = ''connection refused'' \<or>
             msg = ''connection reset''
          then True
          else False)"

text \<open>
  The text of the \<^verbatim>\<open>*url.Error\<close> that \<^verbatim>\<open>http.Client.Do\<close> returns for every failure
  (\<^verbatim>\<open>fmt.Sprintf("%s %q: %s", Op, URL, Err)\<close>, for a URL that \<^verbatim>\<open>%q\<close> only puts
  between quotes).
\<close>

definition url_Error_text :: "string \<Rightarrow> string \<Rightarrow> string \<Rightarrow> string" where
  "url_Error_text op url cause = op @ '' '' @ CHR 0x22 # url @ CHR 0x22 # '': '' @ cause"

section \<open>The request pipeline\<close>

text \<open>
  The function handed to \<^verbatim>\<open>circuitBreaker.Execute\<close> (client.go, lines 213-239): one
  transport round trip on the request built before the loop. It returns the error or the
  response, the request with what is left unread of its body, and the events.
\<close>

definition roundTrip :: "http_Request \<Rightarrow> attempt_env \<Rightarrow> (string + Response) \<times> http_Request \<times> event list" where
  "roundTrip req e =
     (let sent = HttpDo (req_method req) (req_url req) (map_option (take (body_read e)) (req_body req));
          req' = req\<lparr>req_body := map_option (drop (body_read e)) (req_body req)\<rparr>
      in case outcome e of
           DoErr err \<Rightarrow> (Inl err, req', [sent, SpanRecordError err])
         | ReadErr readErr \<Rightarrow> (Inl (''read response: '' @ readErr), req', [sent])
         | Received status hdr respBody \<Rightarrow>
             if status \<ge> 500 \<or> status = 429
             then (Inl (''retryable status '' @ itoa status @ '': '' @ respBody), req', [sent])
             else (Inr \<lparr>StatusCode = status, Headers = hdr, Body = respBody\<rparr>, req', [sent]))"

text \<open>
  \<^verbatim>\<open>CircuitBreaker.Execute\<close> of sony/gobreaker: a breaker that does not admit the
  call returns its error without calling the function.
\<close>

definition Execute :: "http_Request \<Rightarrow> attempt_env \<Rightarrow> (string + Response) \<times> http_Request \<times> event list" where
  "Execute req e =
     (case gate e of
        OpenState \<Rightarrow> (Inl ''circuit breaker is open'', req, [BreakerExecute])
      | TooManyRequests \<Rightarrow> (Inl ''too many requests'', req, [BreakerExecute])
      | Admit \<Rightarrow> (case roundTrip req e of (r, req', ev) \<Rightarrow> (r, req', BreakerExecute # ev)))"

text \<open>
  The operation handed to \<^verbatim>\<open>backoff.Retry\<close> (client.go, lines 211-251): a success, an
  error wrapped by \<^verbatim>\<open>backoff.Permanent\<close>, or a plain error.
\<close>

datatype op_result = OpSuccess Response | OpPermanent string | OpError string

definition operation :: "http_Request \<Rightarrow> attempt_env \<Rightarrow> op_result \<times> http_Request \<times> event list" where
  "operation req e =
     (case Execute req e of
        (Inl err, req', ev) \<Rightarrow>
          if \<not> isRetryableError (Some err) then (OpPermanent err, req', ev)
          else (OpError err, req', ev)
      | (Inr resp, req', ev) \<Rightarrow> (OpSuccess resp, req', ev))"

text \<open>
  \<^verbatim>\<open>NextBackOff\<close> of \<^verbatim>\<open>backoff.WithContext(c.retryBackoff, ctx)\<close>: \<open>Stop\<close> when the
  context is done, otherwise what the exponential policy answers.
\<close>

definition NextBackOff :: "attempt_env \<Rightarrow> backoff_next" where
  "NextBackOff e = (if ctx_at_backoff e \<noteq> Live then Stop else next_interval e)"

text \<open>
  \<^verbatim>\<open>backoff.Retry\<close> (cenkalti/backoff v4): call the operation; return on success and
  on a permanent error; otherwise ask for the next interval, return on \<open>Stop\<close> (with the
  context's error when it has one), start the timer, return the context's error when the
  context ends first, and loop. The list is the environment of the successive
  iterations; \<open>None\<close> means the loop has not returned within them.
\<close>

fun Retry :: "http_Request \<Rightarrow> attempt_env list \<Rightarrow> ((string + Response) \<times> event list) option" where
  "Retry req [] = None"
| "Retry req (e # es) =
     (case operation req e of
        (OpSuccess resp, req', ev) \<Rightarrow> Some (Inr resp, ev)
      | (OpPermanent err, req', ev) \<Rightarrow> Some (Inl err, ev)
      | (OpError err, req', ev) \<Rightarrow>
          (case NextBackOff e of
             Stop \<Rightarrow>
               Some (Inl (case ctx_Err (ctx_at_backoff e) of Some cerr \<Rightarrow> cerr | None \<Rightarrow> err), ev)
           | Delay d \<Rightarrow>
               (case ctx_Err (ctx_in_sleep e) of
                  Some cerr \<Rightarrow> Some (Inl cerr, ev @ [TimerStart d])
                | None \<Rightarrow>
                    (case Retry req' es of
                       None \<Rightarrow> None
                     | Some (r, ev') \<Rightarrow> Some (r, ev @ TimerStart d # ev')))))"

text \<open>
  \<^verbatim>\<open>http.NewRequestWithContext\<close>: the method is one of the five constants and the
  context comes from \<^verbatim>\<open>tracer.Start\<close>, so it fails only when the URL does not parse;
  \<open>parse_err\<close> gives the error of \<^verbatim>\<open>url.Parse\<close>.
\<close>

definition NewRequestWithContext :: "(string \<Rightarrow> string option) \<Rightarrow> string \<Rightarrow> string \<Rightarrow> bytes option \<Rightarrow> string + http_Request" where
  "NewRequestWithContext parse_err method url bodyReader =
     (case parse_err url of
        Some err \<Rightarrow> Inl err
      | None \<Rightarrow> Inr \<lparr>req_method = method, req_url = url, req_body = bodyReader\<rparr>)"

text \<open>
  The body preparation of \<^verbatim>\<open>doRequest\<close> (client.go, lines 173-182): a nil body
  gives a nil reader, any other body is serialized by \<^verbatim>\<open>json.Marshal\<close> (\<open>marshal\<close>,
  on the caller's body type) and read through a \<^verbatim>\<open>bytes.Reader\<close>.
\<close>

definition marshalBody :: "('b \<Rightarrow> string + bytes) \<Rightarrow> 'b option \<Rightarrow> string + bytes option" where
  "marshalBody marshal body =
     (case body of
        None \<Rightarrow> Inr None
      | Some b \<Rightarrow> (case marshal b of Inl err \<Rightarrow> Inl err | Inr bodyBytes \<Rightarrow> Inr (Some bodyBytes)))"

text \<open>
  \<^verbatim>\<open>doRequest\<close> (client.go, lines 162-279). The deferred \<^verbatim>\<open>span.End()\<close> is the
  last event of every return path.
\<close>

definition doRequest :: "('b \<Rightarrow> string + bytes) \<Rightarrow> (string \<Rightarrow> string option) \<Rightarrow> Client \<Rightarrow> attempt_env list \<Rightarrow>
    string \<Rightarrow> string \<Rightarrow> 'b option \<Rightarrow> call_result option" where
  "doRequest marshal parse_err c envs method path body =
     (let started = [SpanStart (method @ '' '' @ path)
                       [(''http.method'', method), (''http.url'', baseURL c @ path),
                        (''service.name'', serviceName c)]]
      in case marshalBody marshal body of
           Inl err \<Rightarrow>
             Some \<lparr>ret_resp = None, ret_err = Some (''marshal request body: '' @ err),
                   trace = started @ [SpanRecordError err, SpanSetStatus CodeError err, SpanEnd]\<rparr>
         | Inr bodyReader \<Rightarrow>
             (let url = baseURL c @ path
              in case NewRequestWithContext parse_err method url bodyReader of
                   Inl err \<Rightarrow>
                     Some \<lparr>ret_resp = None, ret_err = Some (''create request: '' @ err),
                           trace = started @ [SpanRecordError err, SpanSetStatus CodeError err, SpanEnd]\<rparr>
                 | Inr req \<Rightarrow>
                     (case Retry req envs of
                        None \<Rightarrow> None
                      | Some (Inl err, ev) \<Rightarrow>
                          Some \<lparr>ret_resp = None, ret_err = Some (''request failed: '' @ err),
                                trace = started @ NewRequest method url bodyReader # ev @
                                  [SpanRecordError err, SpanSetStatus CodeError err, SpanEnd]\<rparr>
                      | Some (Inr resp, ev) \<Rightarrow>
                          Some \<lparr>ret_resp = Some resp, ret_err = None,
                                trace = started @ NewRequest method url bodyReader # ev @
                                  [SpanSetAttributes ''http.status_code'' (StatusCode resp),
                                   if StatusCode resp \<ge> 400
                                   then SpanSetStatus CodeError (''HTTP '' @ itoa (StatusCode resp))
                                   else SpanSetStatus CodeOk ''success'',
                                   SpanEnd]\<rparr>)))"

text \<open>The five public operations (client.go, lines 137-160).\<close>

definition Get :: "('b \<Rightarrow> string + bytes) \<Rightarrow> (string \<Rightarrow> string option) \<Rightarrow> Client \<Rightarrow> attempt_env list \<Rightarrow>
    string \<Rightarrow> call_result option" where
  "Get marshal parse_err c envs path = doRequest marshal parse_err c envs ''GET'' path None"

definition Post :: "('b \<Rightarrow> string + bytes) \<Rightarrow> (string \<Rightarrow> string option) \<Rightarrow> Client \<Rightarrow> attempt_env list \<Rightarrow>
    string \<Rightarrow> 'b option \<Rightarrow> call_result option" where
  "Post marshal parse_err c envs path body = doRequest marshal parse_err c envs ''POST'' path body"

definition Put :: "('b \<Rightarrow> string + bytes) \<Rightarrow> (string \<Rightarrow> string option) \<Rightarrow> Client \<Rightarrow> attempt_env list \<Rightarrow>
    string \<Rightarrow> 'b option \<Rightarrow> call_result option" where
  "Put marshal parse_err c envs path body = doRequest marshal parse_err c envs ''PUT'' path body"

definition Patch :: "('b \<Rightarrow> string + bytes) \<Rightarrow> (string \<Rightarrow> string option) \<Rightarrow> Client \<Rightarrow> attempt_env list \<Rightarrow>
    string \<Rightarrow> 'b option \<Rightarrow> call_result option" where
  "Patch marshal parse_err c envs path body = doRequest marshal parse_err c envs ''PATCH'' path body"

definition Delete :: "('b \<Rightarrow> string + bytes) \<Rightarrow> (string \<Rightarrow> string option) \<Rightarrow> Client \<Rightarrow> attempt_env list \<Rightarrow>
    string \<Rightarrow> call_result option" where
  "Delete marshal parse_err c envs path = doRequest marshal parse_err c envs ''DELETE'' path None"

section \<open>Reading a trace\<close>

text \<open>
  The number of requests built, of transport attempts (\<^verbatim>\<open>httpClient.Do\<close>) and of
  retry-loop iterations (each calls \<^verbatim>\<open>circuitBreaker.Execute\<close> once), and what was
  set on the span.
\<close>

fun is_NewRequest :: "event \<Rightarrow> bool" where
  "is_NewRequest (NewRequest m u b) = True"
| "is_NewRequest ev = False"

fun is_HttpDo :: "event \<Rightarrow> bool" where
  "is_HttpDo (HttpDo m u b) = True"
| "is_HttpDo ev = False"

fun is_BreakerExecute :: "event \<Rightarrow> bool" where
  "is_BreakerExecute BreakerExecute = True"
| "is_BreakerExecute ev = False"

fun is_span_setting :: "event \<Rightarrow> bool" where
  "is_span_setting (SpanSetStatus code msg) = True"
| "is_span_setting (SpanSetAttributes k v) = True"
| "is_span_setting ev = False"

definition builds :: "event list \<Rightarrow> nat" where
  "builds tr = length (filter is_NewRequest tr)"

definition attempts :: "event list \<Rightarrow> nat" where
  "attempts tr = length (filter is_HttpDo tr)"

definition iterations :: "event list \<Rightarrow> nat" where
  "iterations tr = length (filter is_BreakerExecute tr)"

definition span_settings :: "event list \<Rightarrow> event list" where
  "span_settings tr = filter is_span_setting tr"

section \<open>Iterations that are followed by another one\<close>

text \<open>
  An iteration is followed by another one only when the breaker admitted it,
  \<^verbatim>\<open>httpClient.Do\<close> failed with an error that \<^verbatim>\<open>isRetryableError\<close> accepts, the
  backoff policy did not stop and the context outlived the timer.
\<close>

definition retried :: "attempt_env \<Rightarrow> bool" where
  "retried e =
     (gate e = Admit \<and>
      (case outcome e of
         DoErr err \<Rightarrow> isRetryableError (Some err)
       | ReadErr readErr \<Rightarrow> False
       | Received status hdr respBody \<Rightarrow> False) \<and>
      NextBackOff e \<noteq> Stop \<and>
      ctx_in_sleep e = Live)"

section \<open>Sample calls\<close>

text \<open>
  A client, a body type with \<^verbatim>\<open>json.Marshal\<close> on it (a Go \<^verbatim>\<open>bool\<close> serializes to
  \<^verbatim>\<open>true\<close> or \<^verbatim>\<open>false\<close>, a channel is refused), and iterations admitted by the
  breaker under a live context with budget left (delays in milliseconds). \<open>rejected\<close> is
  an iteration of a target that would answer 200, behind an open breaker. \<open>refused_msg\<close>
  is an error text as \<^verbatim>\<open>http.Client.Do\<close> returns it (a \<^verbatim>\<open>*url.Error\<close>: the
  operation and the URL, then the cause).
\<close>

definition svc :: Client where
  "svc = \<lparr>baseURL = ''http://svc'', serviceName = ''svc''\<rparr>"

definition url_ok :: "string \<Rightarrow> string option" where
  "url_ok u = None"

datatype sample_body = Flag bool | Chan

fun sample_marshal :: "sample_body \<Rightarrow> string + bytes" where
  "sample_marshal (Flag True) = Inr ''true''"
| "sample_marshal (Flag False) = Inr ''false''"
| "sample_marshal Chan = Inl ''json: unsupported type: chan int''"

definition admitted :: "http_outcome \<Rightarrow> attempt_env" where
  "admitted out =
     \<lparr>gate = Admit, body_read = 0, outcome = out, ctx_at_backoff = Live,
      next_interval = Delay 100, ctx_in_sleep = Live\<rparr>"

definition rejected :: attempt_env where
  "rejected = (admitted (Received 200 [] ''ok''))\<lparr>gate := OpenState\<rparr>"

definition refused_msg :: string where
  \<open>refused_msg = ''Get "http://svc/ping": dial tcp 10.0.0.1:80: connect: connection refused''\<close>

definition ok_true :: bytes where
  \<open>ok_true = ''{"ok":true}''\<close>

definition busy_busy_ok :: "attempt_env list" where
  "busy_busy_ok =
     [admitted (Received 503 [] ''busy''), admitted (Received 503 [] ''busy''),
      admitted (Received 200 [] ok_true)]"

definition refused_then_ok :: "attempt_env list" where
  "refused_then_ok = [admitted (DoErr refused_msg), admitted (Received 200 [] ''ok'')]"

definition not_found :: http_outcome where
  "not_found = Received 404 [(''Content-Type'', [''text/plain''])] ''no such user''"

definition ping :: http_Request where
  "ping = \<lparr>req_method = ''GET'', req_url = ''http://svc/ping'', req_body = None\<rparr>"

section \<open>The retry loop, iteration by iteration\<close>

lemma operation_eq:
  "operation req e =
     (case gate e of
        OpenState \<Rightarrow> (OpPermanent ''circuit breaker is open'', req, [BreakerExecute])
      | TooManyRequests \<Rightarrow> (OpPermanent ''too many requests'', req, [BreakerExecute])
      | Admit \<Rightarrow>
          (case outcome e of
             DoErr err \<Rightarrow>
               (if isRetryableError (Some err) then OpError err else OpPermanent err,
                req\<lparr>req_body := map_option (drop (body_read e)) (req_body req)\<rparr>,
                [BreakerExecute,
                 HttpDo (req_method req) (req_url req) (map_option (take (body_read e)) (req_body req)),
                 SpanRecordError err])
           | ReadErr readErr \<Rightarrow>
               (OpPermanent (''read response: '' @ readErr),
                req\<lparr>req_body := map_option (drop (body_read e)) (req_body req)\<rparr>,
                [BreakerExecute,
                 HttpDo (req_method req) (req_url req) (map_option (take (body_read e)) (req_body req))])
           | Received st h b \<Rightarrow>
               (if st \<ge> 500 \<or> st = 429
                then OpPermanent (''retryable status '' @ itoa st @ '': '' @ b)
                else OpSuccess \<lparr>StatusCode = st, Headers = h, Body = b\<rparr>,
                req\<lparr>req_body := map_option (drop (body_read e)) (req_body req)\<rparr>,
                [BreakerExecute,
                 HttpDo (req_method req) (req_url req) (map_option (take (body_read e)) (req_body req))])))"
  by (simp add: operation_def Execute_def roundTrip_def Let_def isRetryableError_def
      split: breaker_gate.split http_outcome.split)

lemma operation_success:
  assumes "operation req e = (OpSuccess resp, req', ev)"
  shows "gate e = Admit \<and> outcome e = Received (StatusCode resp) (Headers resp) (Body resp) \<and>
         StatusCode resp < 500 \<and> StatusCode resp \<noteq> 429"
  using assms
  by (auto simp: operation_eq split: breaker_gate.splits http_outcome.splits if_splits)

lemma operation_error:
  assumes "operation req e = (OpError err, req', ev)"
  shows "gate e = Admit \<and> outcome e = DoErr err \<and> isRetryableError (Some err)"
  using assms
  by (auto simp: operation_eq split: breaker_gate.splits http_outcome.splits if_splits)

lemma operation_trace:
  assumes "operation req e = (r, req', ev)"
  shows "req_method req' = req_method req \<and> req_url req' = req_url req \<and>
         (req_body req = None \<longrightarrow> req_body req' = None) \<and>
         builds ev = 0 \<and> span_settings ev = [] \<and> iterations ev = 1 \<and> attempts ev \<le> 1 \<and>
         (\<forall>m u b. HttpDo m u b \<in> set ev \<longrightarrow>
            m = req_method req \<and> u = req_url req \<and> (req_body req = None \<longrightarrow> b = None))"
  using assms
  by (auto simp: operation_eq builds_def span_settings_def iterations_def attempts_def
      split: breaker_gate.splits http_outcome.splits if_splits)

lemma Retry_Cons_cases:
  assumes "Retry req (e # es) = Some (res, ev)"
  obtains
    (success) resp req' where "operation req e = (OpSuccess resp, req', ev)" and "res = Inr resp"
  | (failure) r err req' ev0 where "operation req e = (r, req', ev0)" and "res = Inl err"
      and "ev = ev0 \<or> (\<exists>d. ev = ev0 @ [TimerStart d])" and "\<not> retried e"
  | (again) err req' ev0 d ev' where "operation req e = (OpError err, req', ev0)"
      and "Retry req' es = Some (res, ev')" and "ev = ev0 @ TimerStart d # ev'" and "retried e"
proof -
  obtain r req' ev0 where op: "operation req e = (r, req', ev0)"
    by (cases "operation req e") auto
  show thesis
  proof (cases r)
    case (OpSuccess resp)
    with op assms show thesis by (auto intro: success)
  next
    case (OpPermanent err)
    with op have "\<not> retried e"
      by (auto simp: operation_eq retried_def split: breaker_gate.splits http_outcome.splits if_splits)
    with OpPermanent op assms show thesis by (auto intro: failure)
  next
    case (OpError err)
    note opE = operation_error[OF op[unfolded OpError]]
    show thesis
    proof (cases "NextBackOff e")
      case Stop
      then have "\<not> retried e" by (simp add: retried_def)
      with Stop OpError op assms show thesis by (auto intro: failure)
    next
      case (Delay d)
      show thesis
      proof (cases "ctx_Err (ctx_in_sleep e)")
        case (Some cerr)
        then have "\<not> retried e" by (auto simp: retried_def)
        with Some Delay OpError op assms show thesis by (auto intro: failure)
      next
        case None
        then have live: "ctx_in_sleep e = Live" by (cases "ctx_in_sleep e") auto
        with opE Delay have "retried e" by (simp add: retried_def)
        with None Delay OpError op assms show thesis
          by (auto intro: again split: option.splits)
      qed
    qed
  qed
qed


lemma iterations_append: "iterations (xs @ ys) = iterations xs + iterations ys"
  by (simp add: iterations_def)

lemma builds_append: "builds (xs @ ys) = builds xs + builds ys"
  by (simp add: builds_def)

lemma attempts_append: "attempts (xs @ ys) = attempts xs + attempts ys"
  by (simp add: attempts_def)

lemma span_settings_append: "span_settings (xs @ ys) = span_settings xs @ span_settings ys"
  by (simp add: span_settings_def)

lemma Retry_no_build:
  "Retry req envs = Some (res, ev) \<Longrightarrow> builds ev = 0 \<and> span_settings ev = []"
proof (induction envs arbitrary: req res ev)
  case Nil
  then show ?case by simp
next
  case (Cons e es)
  from Cons.prems show ?case
  proof (cases rule: Retry_Cons_cases)
    case (success resp req')
    then show ?thesis using operation_trace by blast
  next
    case (failure r err req' ev0)
    from operation_trace[OF failure(1)] have "builds ev0 = 0" "span_settings ev0 = []" by simp_all
    with failure(3) show ?thesis
      by (auto simp: builds_def span_settings_def)
  next
    case (again err req' ev0 d ev')
    from operation_trace[OF again(1)] have "builds ev0 = 0" "span_settings ev0 = []" by simp_all
    moreover from Cons.IH[OF again(2)] have "builds ev' = 0" "span_settings ev' = []" by simp_all
    ultimately show ?thesis using again(3)
      by (simp add: builds_def span_settings_def)
  qed
qed

lemma Retry_same_request:
  "Retry req envs = Some (res, ev) \<Longrightarrow> HttpDo m u b \<in> set ev \<Longrightarrow>
     m = req_method req \<and> u = req_url req \<and> (req_body req = None \<longrightarrow> b = None)"
proof (induction envs arbitrary: req res ev)
  case Nil
  then show ?case by simp
next
  case (Cons e es)
  from Cons.prems(1) show ?case
  proof (cases rule: Retry_Cons_cases)
    case (success resp req')
    with Cons.prems(2) operation_trace[OF success(1)] show ?thesis by blast
  next
    case (failure r err req' ev0)
    with Cons.prems(2) have "HttpDo m u b \<in> set ev0" by auto
    with operation_trace[OF failure(1)] show ?thesis by blast
  next
    case (again err req' ev0 d ev')
    note t = operation_trace[OF again(1)]
    from again(3) Cons.prems(2) consider "HttpDo m u b \<in> set ev0" | "HttpDo m u b \<in> set ev'"
      by auto
    then show ?thesis
    proof cases
      case 1
      with t show ?thesis by blast
    next
      case 2
      from Cons.IH[OF again(2) 2] t show ?thesis by simp
    qed
  qed
qed

lemma Retry_success_final:
  "Retry req envs = Some (Inr resp, ev) \<Longrightarrow>
     \<exists>pre e post. envs = pre @ e # post \<and> iterations ev = Suc (length pre) \<and>
        gate e = Admit \<and> outcome e = Received (StatusCode resp) (Headers resp) (Body resp)"
proof (induction envs arbitrary: req ev)
  case Nil
  then show ?case by simp
next
  case (Cons e es)
  from Cons.prems show ?case
  proof (cases rule: Retry_Cons_cases)
    case (success resp' req')
    then have op: "operation req e = (OpSuccess resp, req', ev)" by simp
    from operation_success[OF op] operation_trace[OF op]
    have "e # es = [] @ e # es \<and> iterations ev = Suc (length ([]::attempt_env list)) \<and>
        gate e = Admit \<and> outcome e = Received (StatusCode resp) (Headers resp) (Body resp)"
      by simp
    then show ?thesis by blast
  next
    case (failure r err req' ev0)
    then show ?thesis by simp
  next
    case (again err req' ev0 d ev')
    from Cons.IH[OF again(2)] obtain pre e' post where
      p: "es = pre @ e' # post" "iterations ev' = Suc (length pre)"
         "gate e' = Admit" "outcome e' = Received (StatusCode resp) (Headers resp) (Body resp)"
      by blast
    from operation_trace[OF again(1)] have "iterations ev0 = 1" by simp
    with again(3) p(2) have "iterations ev = Suc (length (e # pre))"
      by (simp add: iterations_append) (simp add: iterations_def)
    with p have "e # es = (e # pre) @ e' # post \<and> iterations ev = Suc (length (e # pre)) \<and>
        gate e' = Admit \<and> outcome e' = Received (StatusCode resp) (Headers resp) (Body resp)"
      by simp
    then show ?thesis by blast
  qed
qed

lemma ctx_Err_None [simp]: "ctx_Err s = None \<longleftrightarrow> s = Live"
  by (cases s) simp_all

lemma Retry_Cons_not_retried:
  "\<not> retried e \<Longrightarrow> \<exists>res ev. Retry req (e # es) = Some (res, ev)"
  by (auto simp: operation_eq retried_def
      split: breaker_gate.splits http_outcome.splits if_splits backoff_next.splits option.splits ctx_state.splits)

lemma Retry_returns:
  "\<exists>e\<in>set envs. \<not> retried e \<Longrightarrow> \<exists>res ev. Retry req envs = Some (res, ev)"
proof (induction envs arbitrary: req)
  case Nil
  then show ?case by simp
next
  case (Cons e es)
  show ?case
  proof (cases "retried e")
    case False
    then show ?thesis by (rule Retry_Cons_not_retried)
  next
    case True
    with Cons.prems have "\<exists>e\<in>set es. \<not> retried e" by auto
    from Cons.IH[OF this] obtain res ev where
      "Retry (req\<lparr>req_body := map_option (drop (body_read e)) (req_body req)\<rparr>) es = Some (res, ev)"
      by blast
    with True show ?thesis
      by (auto simp: operation_eq retried_def
          split: breaker_gate.splits http_outcome.splits if_splits backoff_next.splits option.splits ctx_state.splits)
  qed
qed

lemma Retry_returned:
  "Retry req envs = Some (res, ev) \<Longrightarrow> \<exists>e\<in>set envs. \<not> retried e"
proof (induction envs arbitrary: req ev)
  case Nil
  then show ?case by simp
next
  case (Cons e es)
  from Cons.prems show ?case
  proof (cases rule: Retry_Cons_cases)
    case (again err req' ev0 d ev')
    from Cons.IH[OF again(2)] show ?thesis by simp
  next
    case (success resp req')
    from operation_success[OF success(1)] show ?thesis by (simp add: retried_def)
  qed simp
qed

lemma Retry_success_status:
  "Retry req envs = Some (Inr resp, ev) \<Longrightarrow> StatusCode resp < 500 \<and> StatusCode resp \<noteq> 429"
proof (induction envs arbitrary: req ev)
  case Nil
  then show ?case by simp
next
  case (Cons e es)
  from Cons.prems show ?case
  proof (cases rule: Retry_Cons_cases)
    case (success resp' req')
    then show ?thesis using operation_success by blast
  next
    case (again err req' ev0 d ev')
    from Cons.IH[OF again(2)] show ?thesis .
  qed simp
qed

lemma doRequest_cases:
  assumes "doRequest marshal parse_err c envs method path body = Some r"
  obtains
    (marshal_error) err where "marshalBody marshal body = Inl err"
      and "r = \<lparr>ret_resp = None, ret_err = Some (''marshal request body: '' @ err),
                trace = [SpanStart (method @ '' '' @ path)
                           [(''http.method'', method), (''http.url'', baseURL c @ path),
                            (''service.name'', serviceName c)],
                         SpanRecordError err, SpanSetStatus CodeError err, SpanEnd]\<rparr>"
  | (create_error) rd err where "marshalBody marshal body = Inr rd"
      and "parse_err (baseURL c @ path) = Some err"
      and "r = \<lparr>ret_resp = None, ret_err = Some (''create request: '' @ err),
                trace = [SpanStart (method @ '' '' @ path)
                           [(''http.method'', method), (''http.url'', baseURL c @ path),
                            (''service.name'', serviceName c)],
                         SpanRecordError err, SpanSetStatus CodeError err, SpanEnd]\<rparr>"
  | (loop_error) rd err ev where "marshalBody marshal body = Inr rd"
      and "parse_err (baseURL c @ path) = None"
      and "Retry \<lparr>req_method = method, req_url = baseURL c @ path, req_body = rd\<rparr> envs = Some (Inl err, ev)"
      and "r = \<lparr>ret_resp = None, ret_err = Some (''request failed: '' @ err),
                trace = SpanStart (method @ '' '' @ path)
                           [(''http.method'', method), (''http.url'', baseURL c @ path),
                            (''service.name'', serviceName c)] #
                        NewRequest method (baseURL c @ path) rd # ev @
                        [SpanRecordError err, SpanSetStatus CodeError err, SpanEnd]\<rparr>"
  | (response) rd resp ev where "marshalBody marshal body = Inr rd"
      and "parse_err (baseURL c @ path) = None"
      and "Retry \<lparr>req_method = method, req_url = baseURL c @ path, req_body = rd\<rparr> envs = Some (Inr resp, ev)"
      and "r = \<lparr>ret_resp = Some resp, ret_err = None,
                trace = SpanStart (method @ '' '' @ path)
                           [(''http.method'', method), (''http.url'', baseURL c @ path),
                            (''service.name'', serviceName c)] #
                        NewRequest method (baseURL c @ path) rd # ev @
                        [SpanSetAttributes ''http.status_code'' (StatusCode resp),
                         if StatusCode resp \<ge> 400
                         then SpanSetStatus CodeError (''HTTP '' @ itoa (StatusCode resp))
                         else SpanSetStatus CodeOk ''success'',
                         SpanEnd]\<rparr>"
proof (cases "marshalBody marshal body")
  case (Inl err)
  with assms show thesis by (intro marshal_error[of err]) (auto simp: doRequest_def)
next
  case (Inr rd)
  show thesis
  proof (cases "parse_err (baseURL c @ path)")
    case (Some err)
    with Inr assms show thesis
      by (intro create_error[of rd err]) (auto simp: doRequest_def NewRequestWithContext_def)
  next
    case None
    let ?req = "\<lparr>req_method = method, req_url = baseURL c @ path, req_body = rd\<rparr>"
    from None Inr assms obtain res ev where R: "Retry ?req envs = Some (res, ev)"
      by (cases "Retry ?req envs") (auto simp: doRequest_def NewRequestWithContext_def)
    show thesis
    proof (cases res)
      case (Inl err)
      with R None Inr assms show thesis
        by (intro loop_error[of rd err ev]) (auto simp: doRequest_def NewRequestWithContext_def)
    next
      case (Inr resp)
      with R None \<open>marshalBody marshal body = Inr rd\<close> assms show thesis
        by (intro response[of rd resp ev]) (auto simp: doRequest_def NewRequestWithContext_def)
    qed
  qed
qed

lemma doRequest_returns:
  assumes "\<exists>e\<in>set envs. \<not> retried e"
  shows "\<exists>r. doRequest marshal parse_err c envs method path body = Some r"
proof -
  show ?thesis
  proof (cases "marshalBody marshal body")
    case (Inl err)
    then show ?thesis by (simp add: doRequest_def)
  next
    case (Inr rd)
    show ?thesis
    proof (cases "parse_err (baseURL c @ path)")
      case (Some err)
      with Inr show ?thesis by (simp add: doRequest_def NewRequestWithContext_def)
    next
      case None
      from Retry_returns[OF assms] obtain res ev where
        "Retry \<lparr>req_method = method, req_url = baseURL c @ path, req_body = rd\<rparr> envs = Some (res, ev)"
        by blast
      with None Inr show ?thesis
        by (cases res) (simp_all add: doRequest_def NewRequestWithContext_def)
    qed
  qed
qed

lemma doRequest_shape:
  assumes "doRequest marshal parse_err c envs method path body = Some r"
  shows "((ret_resp r = None) \<noteq> (ret_err r = None)) \<and>
         (\<forall>resp. ret_resp r = Some resp \<longrightarrow>
            ret_err r = None \<and>
            (\<exists>pre e post. envs = pre @ e # post \<and> iterations (trace r) = Suc (length pre) \<and>
               gate e = Admit \<and>
               outcome e = Received (StatusCode resp) (Headers resp) (Body resp)))"
  using assms
proof (cases rule: doRequest_cases)
  case (response rd resp ev)
  from Retry_success_final[OF response(3)] obtain pre e post where
    p: "envs = pre @ e # post" "iterations ev = Suc (length pre)" "gate e = Admit"
       "outcome e = Received (StatusCode resp) (Headers resp) (Body resp)"
    by blast
  have "iterations (trace r) = iterations ev"
    using response(4) by (simp add: iterations_def)
  with p response(4) show ?thesis by auto
qed simp_all

lemmas sample_defs = svc_def url_ok_def admitted_def

lemmas call_defs = doRequest_def marshalBody_def NewRequestWithContext_def Let_def

lemmas trace_defs = builds_def attempts_def iterations_def span_settings_def

lemma itoa_503: "itoa 503 = ''503''"
  by (simp add: itoa_def decimal.simps digit_def)

lemma itoa_404: "itoa 404 = ''404''"
  by (simp add: itoa_def decimal.simps digit_def)

section \<open>What the loop retries\<close>

text \<open>
  The loop goes on after an iteration only for an error of \<^verbatim>\<open>httpClient.Do\<close> whose text
  is exactly one of the four of \<^verbatim>\<open>isRetryableError\<close>, under a live context and with
  budget left. A response status, a read error, a breaker error and every other error text
  end it.
\<close>

lemma bare_network_error_retried:
  assumes "gate e = Admit" and "outcome e = DoErr err"
      and "err = ''context deadline exceeded'' \<or> err = ''context canceled'' \<or>
           err = ''connection refused'' \<or> err = ''connection reset''"
      and "ctx_at_backoff e = Live" and "next_interval e = Delay d" and "ctx_in_sleep e = Live"
  shows "retried e \<and>
         Retry req (e # es) =
           (case Retry (req\<lparr>req_body := map_option (drop (body_read e)) (req_body req)\<rparr>) es of
              None \<Rightarrow> None
            | Some (r, ev') \<Rightarrow>
                Some (r, [BreakerExecute,
                          HttpDo (req_method req) (req_url req)
                            (map_option (take (body_read e)) (req_body req)),
                          SpanRecordError err, TimerStart d] @ ev'))"
  using assms
  by (auto simp: retried_def operation_eq isRetryableError_def NextBackOff_def split: option.splits)

lemma other_error_is_permanent:
  assumes "gate e = Admit" and "outcome e = DoErr err" and "\<not> isRetryableError (Some err)"
  shows "Retry req (e # es) =
           Some (Inl err,
                 [BreakerExecute,
                  HttpDo (req_method req) (req_url req) (map_option (take (body_read e)) (req_body req)),
                  SpanRecordError err])"
  using assms by (simp add: operation_eq)

lemma server_error_status_is_permanent:
  assumes "gate e = Admit" and "outcome e = Received st h b" and "st \<ge> 500 \<or> st = 429"
  shows "Retry req (e # es) =
           Some (Inl (''retryable status '' @ itoa st @ '': '' @ b),
                 [BreakerExecute,
                  HttpDo (req_method req) (req_url req) (map_option (take (body_read e)) (req_body req))])"
  using assms by (auto simp: operation_eq)

lemma done_context_ends_loop:
  assumes "ctx_at_backoff e \<noteq> Live \<or> ctx_in_sleep e \<noteq> Live"
  shows "\<not> retried e \<and> (\<exists>res ev. Retry req (e # es) = Some (res, ev) \<and> attempts ev \<le> 1)"
proof -
  from assms have n: "\<not> retried e" by (auto simp: retried_def NextBackOff_def)
  from Retry_Cons_not_retried[OF n] obtain res ev where R: "Retry req (e # es) = Some (res, ev)"
    by blast
  from R have "attempts ev \<le> 1"
  proof (cases rule: Retry_Cons_cases)
    case (success resp req')
    from operation_trace[OF success(1)] show ?thesis by simp
  next
    case (failure r err req' ev0)
    from operation_trace[OF failure(1)] failure(3) show ?thesis
      by (auto simp: attempts_def)
  next
    case (again err req' ev0 d ev')
    with n show ?thesis by simp
  qed
  with n R show ?thesis by blast
qed

text \<open>
  The error of \<^verbatim>\<open>http.Client.Do\<close> is always a \<^verbatim>\<open>*url.Error\<close>, whose text holds the
  quoted URL: it is none of the four texts, whatever its cause.
\<close>

lemma retryable_text_unquoted:
  "isRetryableError (Some err) \<Longrightarrow> CHR 0x22 \<notin> set err"
  by (auto simp: isRetryableError_def split: if_splits)

lemma url_Error_not_retryable:
  "\<not> isRetryableError (Some (url_Error_text op url cause))"
proof
  assume "isRetryableError (Some (url_Error_text op url cause))"
  then have "CHR 0x22 \<notin> set (url_Error_text op url cause)"
    by (rule retryable_text_unquoted)
  then show False by (simp add: url_Error_text_def)
qed

lemma Do_error_not_retried:
  assumes "\<forall>err. outcome e = DoErr err \<longrightarrow> (\<exists>op url cause. err = url_Error_text op url cause)"
  shows "\<not> retried e"
proof (cases "outcome e")
  case (DoErr err)
  with assms obtain op url cause where "err = url_Error_text op url cause" by blast
  with DoErr url_Error_not_retryable show ?thesis
    by (simp add: retried_def)
qed (simp_all add: retried_def)

lemma not_retried_single_iteration:
  assumes "\<not> retried e"
  shows "\<exists>res ev. Retry req (e # es) = Some (res, ev) \<and> iterations ev = 1 \<and> attempts ev \<le> 1"
proof -
  from Retry_Cons_not_retried[OF assms] obtain res ev where R: "Retry req (e # es) = Some (res, ev)"
    by blast
  from R have "iterations ev = 1 \<and> attempts ev \<le> 1"
  proof (cases rule: Retry_Cons_cases)
    case (success resp req')
    from operation_trace[OF success(1)] show ?thesis by simp
  next
    case (failure r err req' ev0)
    from operation_trace[OF failure(1)] failure(3) show ?thesis
      by (auto simp: attempts_def iterations_def)
  next
    case (again err req' ev0 d ev')
    with assms show ?thesis by simp
  qed
  with R show ?thesis by blast
qed

section \<open>Server-side failures (5xx, 429)\<close>

text \<open>
  C1. An attempt whose response has status \<open>\<ge> 500\<close> or \<open>429\<close> is to be retried, and a
  target that answers 503, 503, 200 is to give a Response with status 200. In
  \<^verbatim>\<open>client.go\<close> the error made for such a status (\<^verbatim>\<open>retryable status 503: busy\<close>) is
  none of the four texts \<^verbatim>\<open>isRetryableError\<close> accepts, so the operation returns it wrapped
  in \<^verbatim>\<open>backoff.Permanent\<close>: the call below makes one transport attempt and returns the
  error, although the comments at lines 227 and 295 say that 5xx and 429 are retried.
\<close>

theorem server_error_503_not_retried:
  "Get sample_marshal url_ok svc busy_busy_ok ''/ping'' =
   Some \<lparr>ret_resp = None,
         ret_err = Some ''request failed: retryable status 503: busy'',
         trace = [SpanStart ''GET /ping''
                    [(''http.method'', ''GET''), (''http.url'', ''http://svc/ping''),
                     (''service.name'', ''svc'')],
                  NewRequest ''GET'' ''http://svc/ping'' None,
                  BreakerExecute,
                  HttpDo ''GET'' ''http://svc/ping'' None,
                  SpanRecordError ''retryable status 503: busy'',
                  SpanSetStatus CodeError ''retryable status 503: busy'',
                  SpanEnd]\<rparr>"
  by (simp add: Get_def call_defs sample_defs busy_busy_ok_def operation_eq itoa_503)

section \<open>Transport failures\<close>

text \<open>
  C2. A transport failure (connection refused or reset, deadline exceeded, cancellation)
  is to be retryable exactly when the call context is not done. The context half holds
  (\<open>done_context_ends_loop\<close>), and so does the other half for the four bare texts
  (\<open>bare_network_error_retried\<close>). But \<^verbatim>\<open>isRetryableError\<close> compares the whole text of
  the error, and the error \<^verbatim>\<open>http.Client.Do\<close> returns for a refused connection carries
  the operation and the URL in front: under a live context, with budget left, the call below
  ends after one attempt, although the comment at line 287 says that network errors are
  retryable.
\<close>

theorem wrapped_connection_refused_not_retried:
  "Get sample_marshal url_ok svc refused_then_ok ''/ping'' =
   Some \<lparr>ret_resp = None,
         ret_err = Some (''request failed: '' @ refused_msg),
         trace = [SpanStart ''GET /ping''
                    [(''http.method'', ''GET''), (''http.url'', ''http://svc/ping''),
                     (''service.name'', ''svc'')],
                  NewRequest ''GET'' ''http://svc/ping'' None,
                  BreakerExecute,
                  HttpDo ''GET'' ''http://svc/ping'' None,
                  SpanRecordError refused_msg,
                  SpanRecordError refused_msg,
                  SpanSetStatus CodeError refused_msg,
                  SpanEnd]\<rparr>"
  by (simp add: Get_def call_defs sample_defs refused_then_ok_def refused_msg_def operation_eq
      isRetryableError_def)

section \<open>One request for the whole call\<close>

text \<open>
  The transport request is built at line 186, before \<^verbatim>\<open>backoff.Retry\<close> is entered:
  at most once in a call, and before the first iteration when the loop runs. Every
  transport attempt is \<^verbatim>\<open>httpClient.Do\<close> on that request, with the method and URL of
  the call, and without a body when the call has none.
\<close>

lemma request_built_before_loop:
  assumes "doRequest marshal parse_err c envs method path body = Some r"
  shows "builds (trace r) \<le> 1 \<and>
         (0 < iterations (trace r) \<longrightarrow>
            (\<exists>pre rd loop. trace r = pre @ NewRequest method (baseURL c @ path) rd # loop \<and>
               marshalBody marshal body = Inr rd \<and>
               builds pre = 0 \<and> iterations pre = 0 \<and> attempts pre = 0 \<and> builds loop = 0)) \<and>
         (\<forall>m u b. HttpDo m u b \<in> set (trace r) \<longrightarrow>
            m = method \<and> u = baseURL c @ path \<and> (body = None \<longrightarrow> b = None))"
  using assms
proof (cases rule: doRequest_cases)
  case (marshal_error err)
  then show ?thesis by (simp add: trace_defs)
next
  case (create_error rd err)
  then show ?thesis by (simp add: trace_defs)
next
  case (loop_error rd err ev)
  let ?req = "\<lparr>req_method = method, req_url = baseURL c @ path, req_body = rd\<rparr>"
  let ?pre = "[SpanStart (method @ '' '' @ path)
                 [(''http.method'', method), (''http.url'', baseURL c @ path),
                  (''service.name'', serviceName c)]]"
  let ?loop = "ev @ [SpanRecordError err, SpanSetStatus CodeError err, SpanEnd]"
  from Retry_no_build[OF loop_error(3)] have nb: "builds ev = 0" by simp
  have b1: "builds (trace r) \<le> 1" using nb loop_error(4) by (simp add: builds_def)
  have split: "trace r = ?pre @ NewRequest method (baseURL c @ path) rd # ?loop \<and>
      marshalBody marshal body = Inr rd \<and>
      builds ?pre = 0 \<and> iterations ?pre = 0 \<and> attempts ?pre = 0 \<and> builds ?loop = 0"
    using nb loop_error(1,4) by (simp add: trace_defs)
  have same: "\<forall>m u b. HttpDo m u b \<in> set (trace r) \<longrightarrow>
            m = method \<and> u = baseURL c @ path \<and> (body = None \<longrightarrow> b = None)"
  proof (intro allI impI)
    fix m u b assume "HttpDo m u b \<in> set (trace r)"
    with loop_error(4) have "HttpDo m u b \<in> set ev" by auto
    from Retry_same_request[OF loop_error(3) this] loop_error(1)
    show "m = method \<and> u = baseURL c @ path \<and> (body = None \<longrightarrow> b = None)"
      by (auto simp: marshalBody_def)
  qed
  from b1 split same show ?thesis by blast
next
  case (response rd resp ev)
  let ?pre = "[SpanStart (method @ '' '' @ path)
                 [(''http.method'', method), (''http.url'', baseURL c @ path),
                  (''service.name'', serviceName c)]]"
  let ?loop = "ev @ [SpanSetAttributes ''http.status_code'' (StatusCode resp),
                     if StatusCode resp \<ge> 400
                     then SpanSetStatus CodeError (''HTTP '' @ itoa (StatusCode resp))
                     else SpanSetStatus CodeOk ''success'',
                     SpanEnd]"
  from Retry_no_build[OF response(3)] have nb: "builds ev = 0" by simp
  have b1: "builds (trace r) \<le> 1" using nb response(4) by (simp add: builds_def)
  have split: "trace r = ?pre @ NewRequest method (baseURL c @ path) rd # ?loop \<and>
      marshalBody marshal body = Inr rd \<and>
      builds ?pre = 0 \<and> iterations ?pre = 0 \<and> attempts ?pre = 0 \<and> builds ?loop = 0"
    using nb response(1,4) by (simp add: trace_defs)
  have same: "\<forall>m u b. HttpDo m u b \<in> set (trace r) \<longrightarrow>
            m = method \<and> u = baseURL c @ path \<and> (body = None \<longrightarrow> b = None)"
  proof (intro allI impI)
    fix m u b assume "HttpDo m u b \<in> set (trace r)"
    with response(4) have "HttpDo m u b \<in> set ev" by (auto split: if_splits)
    from Retry_same_request[OF response(3) this] response(1)
    show "m = method \<and> u = baseURL c @ path \<and> (body = None \<longrightarrow> b = None)"
      by (auto simp: marshalBody_def)
  qed
  from b1 split same show ?thesis by blast
qed

text \<open>
  C3 speaks of what the second and later attempts of a call send. An iteration that ends
  with an error of \<^verbatim>\<open>http.Client.Do\<close>, a status, a read error or a breaker error is
  never followed by another one (\<open>Do_error_not_retried\<close>), and the call then makes a
  single iteration (\<open>not_retried_single_iteration\<close>). No call the program can make shows
  a second attempt, so C3 is neither proved nor refuted here.
\<close>

section \<open>The open circuit breaker\<close>

text \<open>
  C4. Whenever the circuit breaker is open and does not admit the call, no transport
  attempt is made and the circuit-open error is not retryable: the retry loop ends with that
  iteration. The first three conjuncts hold at any iteration of the loop (\<open>req\<close> is the
  request as the earlier iterations left it); the last is the whole call when the breaker
  rejects its first iteration.
\<close>

theorem open_breaker_fails_fast:
  assumes "gate e = OpenState"
  shows "\<not> isRetryableError (Some ''circuit breaker is open'') \<and>
         \<not> retried e \<and>
         Retry req (e # es) = Some (Inl ''circuit breaker is open'', [BreakerExecute]) \<and>
         (marshalBody marshal body = Inr rd \<and> parse_err (baseURL c @ path) = None \<longrightarrow>
            (\<exists>r. doRequest marshal parse_err c (e # es) method path body = Some r \<and>
                 ret_resp r = None \<and>
                 ret_err r = Some ''request failed: circuit breaker is open'' \<and>
                 attempts (trace r) = 0 \<and> iterations (trace r) = 1))"
  using assms
  by (simp add: operation_eq isRetryableError_def doRequest_def NewRequestWithContext_def
      attempts_def iterations_def retried_def)

theorem open_breaker_fails_fast_witness:
  "gate rejected = OpenState \<and>
   \<not> retried rejected \<and>
   Retry ping [rejected, admitted (Received 200 [] ''ok'')] =
     Some (Inl ''circuit breaker is open'', [BreakerExecute]) \<and>
   (\<exists>r. doRequest sample_marshal url_ok svc [rejected, admitted (Received 200 [] ''ok'')]
           ''GET'' ''/ping'' None = Some r \<and>
        ret_resp r = None \<and>
        ret_err r = Some ''request failed: circuit breaker is open'' \<and>
        attempts (trace r) = 0 \<and> iterations (trace r) = 1)"
proof -
  have g: "gate rejected = OpenState" by (simp add: rejected_def admitted_def)
  have m: "marshalBody sample_marshal None = Inr None" by (simp add: marshalBody_def)
  have u: "url_ok (baseURL svc @ ''/ping'') = None" by (simp add: url_ok_def)
  from open_breaker_fails_fast [OF g,
      of ping "[admitted (Received 200 [] ''ok'')]" sample_marshal None None url_ok svc
         "''/ping''" "''GET''"]
    g m u
  show ?thesis by simp
qed

section \<open>Statuses that end the call with a Response\<close>

text \<open>
  C5. An attempt whose response was received in full with a status that is neither
  \<open>\<ge> 500\<close> nor \<open>429\<close> ends the logical call at once: that Response (status code,
  headers, body bytes) is returned as it is, with a nil error and no further attempt. The
  first conjunct holds at any iteration of the loop; the second is the whole call when the
  first attempt is such a one; the third says when \<^verbatim>\<open>IsSuccess\<close> holds of it (not for a
  404).
\<close>

theorem terminal_status_returned:
  assumes "gate e = Admit" and "outcome e = Received st h b" and "\<not> (st \<ge> 500 \<or> st = 429)"
  shows "Retry req (e # es) =
           Some (Inr \<lparr>StatusCode = st, Headers = h, Body = b\<rparr>,
                 [BreakerExecute,
                  HttpDo (req_method req) (req_url req) (map_option (take (body_read e)) (req_body req))]) \<and>
         (marshalBody marshal body = Inr rd \<and> parse_err (baseURL c @ path) = None \<longrightarrow>
            (\<exists>r. doRequest marshal parse_err c (e # es) method path body = Some r \<and>
                 ret_resp r = Some \<lparr>StatusCode = st, Headers = h, Body = b\<rparr> \<and>
                 ret_err r = None \<and>
                 attempts (trace r) = 1 \<and> iterations (trace r) = 1)) \<and>
         (IsSuccess \<lparr>StatusCode = st, Headers = h, Body = b\<rparr> \<longleftrightarrow> 200 \<le> st \<and> st < 300)"
  using assms
  by (simp add: operation_eq doRequest_def NewRequestWithContext_def
      attempts_def iterations_def IsSuccess_def Let_def)

theorem terminal_status_returned_witness:
  "gate (admitted not_found) = Admit \<and>
   outcome (admitted not_found) = Received 404 [(''Content-Type'', [''text/plain''])] ''no such user'' \<and>
   \<not> ((404::int) \<ge> 500 \<or> (404::int) = 429) \<and>
   Retry ping [admitted not_found, admitted (Received 200 [] ''ok'')] =
     Some (Inr \<lparr>StatusCode = 404, Headers = [(''Content-Type'', [''text/plain''])],
                Body = ''no such user''\<rparr>,
           [BreakerExecute, HttpDo ''GET'' ''http://svc/ping'' None]) \<and>
   (\<exists>r. doRequest sample_marshal url_ok svc [admitted not_found, admitted (Received 200 [] ''ok'')]
           ''GET'' ''/users/7'' None = Some r \<and>
        ret_resp r = Some \<lparr>StatusCode = 404, Headers = [(''Content-Type'', [''text/plain''])],
                            Body = ''no such user''\<rparr> \<and>
        ret_err r = None \<and>
        attempts (trace r) = 1 \<and> iterations (trace r) = 1) \<and>
   \<not> IsSuccess \<lparr>StatusCode = 404, Headers = [(''Content-Type'', [''text/plain''])],
                 Body = ''no such user''\<rparr>"
proof -
  have g: "gate (admitted not_found) = Admit" by (simp add: admitted_def)
  have o: "outcome (admitted not_found) =
      Received 404 [(''Content-Type'', [''text/plain''])] ''no such user''"
    by (simp add: admitted_def not_found_def)
  have s: "\<not> ((404::int) \<ge> 500 \<or> (404::int) = 429)" by simp
  have m: "marshalBody sample_marshal None = Inr None" by (simp add: marshalBody_def)
  have u: "url_ok (baseURL svc @ ''/users/7'') = None" by (simp add: url_ok_def)
  from terminal_status_returned [OF g o s,
      of ping "[admitted (Received 200 [] ''ok'')]" sample_marshal None None url_ok svc
         "''/users/7''" "''GET''"]
    g o s m u
  show ?thesis by (simp add: ping_def)
qed

section \<open>The span of a call that returns a Response\<close>

text \<open>
  C6, as the specification states it: when the call ends with a Response the span status
  is Ok for a 2xx status code and Error otherwise. In \<^verbatim>\<open>client.go\<close> (lines 272-276) the
  test is \<^verbatim>\<open>resp.StatusCode >= 400\<close>: a 304 is not a success, and its span is set to Ok.
\<close>

theorem not_modified_span_ok_counterexample:
  "\<exists>r resp. Get sample_marshal url_ok svc [admitted (Received 304 [] [])] ''/users/7'' = Some r \<and>
       ret_resp r = Some resp \<and> ret_err r = None \<and>
       StatusCode resp = 304 \<and> \<not> IsSuccess resp \<and>
       span_settings (trace r) =
         [SpanSetAttributes ''http.status_code'' 304, SpanSetStatus CodeOk ''success'']"
  by (simp add: Get_def call_defs sample_defs operation_eq trace_defs IsSuccess_def)

text \<open>
  C6, amended. For every logical call that ends with a Response, the numeric status code
  is attached to the span as the attribute \<^verbatim>\<open>http.status_code\<close>, and then the span
  status is set once: to Error, with the message \<^verbatim>\<open>HTTP <code>\<close>, when the status code is
  400 or more, and to Ok, with the message \<^verbatim>\<open>success\<close>, when it is below 400. The span is
  ended last. (Such a status code is below 500 and is not 429.)
\<close>

theorem span_status_of_response:
  assumes "doRequest marshal parse_err c envs method path body = Some r"
      and "ret_resp r = Some resp"
  shows "ret_err r = None \<and>
         StatusCode resp < 500 \<and> StatusCode resp \<noteq> 429 \<and>
         span_settings (trace r) =
           [SpanSetAttributes ''http.status_code'' (StatusCode resp),
            if StatusCode resp \<ge> 400
            then SpanSetStatus CodeError (''HTTP '' @ itoa (StatusCode resp))
            else SpanSetStatus CodeOk ''success''] \<and>
         last (trace r) = SpanEnd"
  using assms(1)
proof (cases rule: doRequest_cases)
  case (response rd resp' ev)
  with assms(2) have eq: "resp' = resp" by simp
  from Retry_no_build[OF response(3)] have "span_settings ev = []" by simp
  then have "span_settings (trace r) =
           [SpanSetAttributes ''http.status_code'' (StatusCode resp),
            if StatusCode resp \<ge> 400
            then SpanSetStatus CodeError (''HTTP '' @ itoa (StatusCode resp))
            else SpanSetStatus CodeOk ''success'']"
    using response(4) eq by (simp add: span_settings_def)
  moreover have "last (trace r) = SpanEnd" using response(4) by simp
  moreover from Retry_success_status[OF response(3)] eq
  have "StatusCode resp < 500 \<and> StatusCode resp \<noteq> 429" by simp
  moreover have "ret_err r = None" using response(4) by simp
  ultimately show ?thesis by blast
qed (use assms(2) in simp_all)

theorem span_status_of_response_witness:
  "\<exists>r. doRequest sample_marshal url_ok svc [admitted not_found] ''GET'' ''/users/7'' None = Some r \<and>
       ret_resp r = Some \<lparr>StatusCode = 404, Headers = [(''Content-Type'', [''text/plain''])],
                           Body = ''no such user''\<rparr> \<and>
       ret_err r = None \<and>
       span_settings (trace r) =
         [SpanSetAttributes ''http.status_code'' 404, SpanSetStatus CodeError ''HTTP 404''] \<and>
       last (trace r) = SpanEnd"
proof -
  obtain r where r: "doRequest sample_marshal url_ok svc [admitted not_found] ''GET'' ''/users/7''
      None = Some r"
    by (simp add: call_defs sample_defs not_found_def operation_eq)
  have resp: "ret_resp r = Some \<lparr>StatusCode = 404,
      Headers = [(''Content-Type'', [''text/plain''])], Body = ''no such user''\<rparr>"
    using r by (auto simp: call_defs sample_defs not_found_def operation_eq)
  from span_status_of_response [OF r resp] r resp show ?thesis
    by (simp add: itoa_404)
qed

section \<open>A body that does not serialize\<close>

text \<open>
  C7. A call whose body is not nil and fails to serialize returns an encoding error at
  once: no request is built, no iteration of the retry loop runs, no transport attempt is
  made, and the span is given the Error status and ended on that return path.
\<close>

theorem marshal_failure_returns_at_once:
  assumes "marshal b = Inl err"
  shows "\<exists>r. doRequest marshal parse_err c envs method path (Some b) = Some r \<and>
           ret_resp r = None \<and>
           ret_err r = Some (''marshal request body: '' @ err) \<and>
           trace r = [SpanStart (method @ '' '' @ path)
                        [(''http.method'', method), (''http.url'', baseURL c @ path),
                         (''service.name'', serviceName c)],
                      SpanRecordError err, SpanSetStatus CodeError err, SpanEnd] \<and>
           attempts (trace r) = 0 \<and> iterations (trace r) = 0 \<and> builds (trace r) = 0"
  using assms
  by (simp add: doRequest_def marshalBody_def attempts_def iterations_def builds_def)

theorem marshal_failure_returns_at_once_witness:
  "sample_marshal Chan = Inl ''json: unsupported type: chan int'' \<and>
   (\<exists>r. doRequest sample_marshal url_ok svc [admitted (Received 200 [] ''ok'')]
           ''POST'' ''/flags'' (Some Chan) = Some r \<and>
        ret_resp r = None \<and>
        ret_err r = Some ''marshal request body: json: unsupported type: chan int'' \<and>
        trace r = [SpanStart ''POST /flags''
                     [(''http.method'', ''POST''), (''http.url'', ''http://svc/flags''),
                      (''service.name'', ''svc'')],
                   SpanRecordError ''json: unsupported type: chan int'',
                   SpanSetStatus CodeError ''json: unsupported type: chan int'', SpanEnd] \<and>
        attempts (trace r) = 0 \<and> iterations (trace r) = 0 \<and> builds (trace r) = 0)"
proof -
  have f: "sample_marshal Chan = Inl ''json: unsupported type: chan int''" by simp
  from marshal_failure_returns_at_once [of sample_marshal Chan
      "''json: unsupported type: chan int''" url_ok svc "[admitted (Received 200 [] ''ok'')]"
      "''POST''" "''/flags''"] f
  show ?thesis by (simp add: svc_def)
qed

section \<open>Response helpers: properties\<close>

text \<open>
  C9. For every Response \<open>r\<close>, \<^verbatim>\<open>r.IsSuccess()\<close> is true if and only if
  \<open>200 \<le> r.StatusCode < 300\<close>.
\<close>

theorem IsSuccess_iff_2xx: "IsSuccess r \<longleftrightarrow> 200 \<le> StatusCode r \<and> StatusCode r < 300"
  by (simp add: IsSuccess_def)

section \<open>What a call returns\<close>

text \<open>
  C10. Each of the five public operations returns exactly one of a Response and an
  error: on every error path the Response is nil, and on the success path the error is nil
  and the Response carries the status, the headers and the body bytes of the final attempt
  (the attempt of the last iteration that ran, which the breaker admitted). The call
  returns as soon as one iteration is not followed by another; while every iteration is
  retried the loop goes on.
\<close>

theorem call_returns_response_xor_error:
  assumes "call \<in> {Get marshal parse_err c envs path,
                    Post marshal parse_err c envs path body,
                    Put marshal parse_err c envs path body,
                    Patch marshal parse_err c envs path body,
                    Delete marshal parse_err c envs path}"
  shows "((\<exists>e\<in>set envs. \<not> retried e) \<longrightarrow> (\<exists>r. call = Some r)) \<and>
         (\<forall>r. call = Some r \<longrightarrow>
            ((ret_resp r = None) \<noteq> (ret_err r = None)) \<and>
            (\<forall>resp. ret_resp r = Some resp \<longrightarrow>
               ret_err r = None \<and>
               (\<exists>pre e post. envs = pre @ e # post \<and> iterations (trace r) = Suc (length pre) \<and>
                  gate e = Admit \<and>
                  outcome e = Received (StatusCode resp) (Headers resp) (Body resp))))"
proof -
  from assms obtain verb b where c: "call = doRequest marshal parse_err c envs verb path b"
    unfolding Get_def Post_def Put_def Patch_def Delete_def by auto
  have returns: "(\<exists>e\<in>set envs. \<not> retried e) \<longrightarrow> (\<exists>r. call = Some r)"
    unfolding c using doRequest_returns by blast
  have shape: "\<forall>r. call = Some r \<longrightarrow>
            ((ret_resp r = None) \<noteq> (ret_err r = None)) \<and>
            (\<forall>resp. ret_resp r = Some resp \<longrightarrow>
               ret_err r = None \<and>
               (\<exists>pre e post. envs = pre @ e # post \<and> iterations (trace r) = Suc (length pre) \<and>
                  gate e = Admit \<and>
                  outcome e = Received (StatusCode resp) (Headers resp) (Body resp)))"
  proof (intro allI impI)
    fix r assume "call = Some r"
    then have "doRequest marshal parse_err c envs verb path b = Some r" by (simp add: c)
    then show "((ret_resp r = None) \<noteq> (ret_err r = None)) \<and>
            (\<forall>resp. ret_resp r = Some resp \<longrightarrow>
               ret_err r = None \<and>
               (\<exists>pre e post. envs = pre @ e # post \<and> iterations (trace r) = Suc (length pre) \<and>
                  gate e = Admit \<and>
                  outcome e = Received (StatusCode resp) (Headers resp) (Body resp)))"
      by (rule doRequest_shape)
  qed
  from returns shape show ?thesis by (rule conjI)
qed

theorem call_returns_response_xor_error_witness:
  "(\<exists>e\<in>set [admitted (Received 200 [] ''ok'')]. \<not> retried e) \<and>
   (\<exists>r. Get sample_marshal url_ok svc [admitted (Received 200 [] ''ok'')] ''/ping'' = Some r \<and>
        ((ret_resp r = None) \<noteq> (ret_err r = None)) \<and>
        ret_resp r = Some \<lparr>StatusCode = 200, Headers = [], Body = ''ok''\<rparr> \<and>
        ret_err r = None \<and>
        iterations (trace r) = 1) \<and>
   (\<exists>e\<in>set [admitted (Received 503 [] ''busy'')]. \<not> retried e) \<and>
   (\<exists>r. Delete sample_marshal url_ok svc [admitted (Received 503 [] ''busy'')] ''/users/7'' = Some r \<and>
        ((ret_resp r = None) \<noteq> (ret_err r = None)) \<and>
        ret_resp r = None \<and>
        ret_err r = Some ''request failed: retryable status 503: busy'')"
proof -
  let ?ok = "[admitted (Received 200 [] ''ok'')]"
  let ?busy = "[admitted (Received 503 [] ''busy'')]"
  have h1: "\<exists>e\<in>set ?ok. \<not> retried e"
    by (simp add: admitted_def retried_def)
  have c1: "Get sample_marshal url_ok svc ?ok ''/ping'' \<in>
      {Get sample_marshal url_ok svc ?ok ''/ping'',
       Post sample_marshal url_ok svc ?ok ''/ping'' None,
       Put sample_marshal url_ok svc ?ok ''/ping'' None,
       Patch sample_marshal url_ok svc ?ok ''/ping'' None,
       Delete sample_marshal url_ok svc ?ok ''/ping''}"
    by simp
  note t1 = call_returns_response_xor_error [OF c1]
  from t1 h1 obtain r1 where r1: "Get sample_marshal url_ok svc ?ok ''/ping'' = Some r1"
    by blast
  from conjunct2 [OF t1, rule_format, OF r1]
  have x1: "(ret_resp r1 = None) \<noteq> (ret_err r1 = None)"
    by (rule conjunct1)
  from r1 have v1: "ret_resp r1 = Some \<lparr>StatusCode = 200, Headers = [], Body = ''ok''\<rparr> \<and>
      ret_err r1 = None \<and> iterations (trace r1) = 1"
    by (auto simp: Get_def call_defs sample_defs operation_eq trace_defs)
  have h2: "\<exists>e\<in>set ?busy. \<not> retried e"
    by (simp add: admitted_def retried_def)
  have c2: "Delete sample_marshal url_ok svc ?busy ''/users/7'' \<in>
      {Get sample_marshal url_ok svc ?busy ''/users/7'',
       Post sample_marshal url_ok svc ?busy ''/users/7'' None,
       Put sample_marshal url_ok svc ?busy ''/users/7'' None,
       Patch sample_marshal url_ok svc ?busy ''/users/7'' None,
       Delete sample_marshal url_ok svc ?busy ''/users/7''}"
    by simp
  note t2 = call_returns_response_xor_error [OF c2]
  from t2 h2 obtain r2 where r2: "Delete sample_marshal url_ok svc ?busy ''/users/7'' = Some r2"
    by blast
  from conjunct2 [OF t2, rule_format, OF r2]
  have x2: "(ret_resp r2 = None) \<noteq> (ret_err r2 = None)"
    by (rule conjunct1)
  from r2 have v2: "ret_resp r2 = None \<and>
      ret_err r2 = Some ''request failed: retryable status 503: busy''"
    by (auto simp: Delete_def call_defs sample_defs operation_eq itoa_503)
  from h1 r1 x1 v1 h2 r2 x2 v2 show ?thesis by blast
qed

end
